theory Spec2Isabelle
  imports Main "HOL-Library.AList" "HOL-Library.List_Lexorder" "HOL-Library.Char_ord"
begin

section \<open>Strings\<close>

text \<open>
  Python strings are modelled as \<open>string\<close>. Case conversion is the ASCII part of
  \<open>str.lower\<close> and \<open>str.upper\<close>: the twenty-six Latin letters are mapped, every other
  character is kept.
\<close>

definition upper_chars :: string where
  "upper_chars = ''ABCDEFGHIJKLMNOPQRSTUVWXYZ''"

definition lower_chars :: string where
  "lower_chars = ''abcdefghijklmnopqrstuvwxyz''"

definition lower_char :: "char \<Rightarrow> char" where
  "lower_char c = (case map_of (zip upper_chars lower_chars) c of Some d \<Rightarrow> d | None \<Rightarrow> c)"

definition upper_char :: "char \<Rightarrow> char" where
  "upper_char c = (case map_of (zip lower_chars upper_chars) c of Some d \<Rightarrow> d | None \<Rightarrow> c)"

text \<open>\<open>s.lower()\<close>\<close>

definition lower :: "string \<Rightarrow> string" where
  "lower s = map lower_char s"

text \<open>\<open>s.capitalize()\<close>: first character upper-cased, the rest lower-cased.\<close>

definition capitalize :: "string \<Rightarrow> string" where
  "capitalize s = (case s of [] \<Rightarrow> [] | c # cs \<Rightarrow> upper_char c # map lower_char cs)"

text \<open>Django's \<open>capfirst\<close>: first character upper-cased, the rest untouched. Display
  names are taken to be ASCII; the upper case of another first character is outside
  this model.\<close>

definition capfirst :: "string \<Rightarrow> string" where
  "capfirst s = (case s of [] \<Rightarrow> [] | c # cs \<Rightarrow> upper_char c # cs)"

text \<open>\<open>s.rstrip(c)\<close> for a single character \<open>c\<close>.\<close>

definition rstrip :: "char \<Rightarrow> string \<Rightarrow> string" where
  "rstrip c s = rev (dropWhile (\<lambda>x. x = c) (rev s))"

text \<open>\<open>s.strip(c)\<close> for a single character \<open>c\<close>.\<close>

definition strip :: "char \<Rightarrow> string \<Rightarrow> string" where
  "strip c s = rstrip c (dropWhile (\<lambda>x. x = c) s)"

text \<open>\<open>s.startswith(t)\<close>\<close>

definition startswith :: "string \<Rightarrow> string \<Rightarrow> bool" where
  "startswith s t = (take (length t) s = t)"

text \<open>\<open>s.split(sep)\<close> for a single character separator: the pieces between separators,
  empty pieces included.\<close>

fun split_acc :: "char \<Rightarrow> string \<Rightarrow> string \<Rightarrow> string list" where
  "split_acc sep acc [] = [rev acc]"
| "split_acc sep acc (c # cs) =
     (if c = sep then rev acc # split_acc sep [] cs else split_acc sep (c # acc) cs)"

definition split_on :: "char \<Rightarrow> string \<Rightarrow> string list" where
  "split_on sep s = split_acc sep [] s"

text \<open>\<open>s.split()\<close>: the maximal runs of non-blank characters.\<close>

definition is_space :: "char \<Rightarrow> bool" where
  "is_space c = (c \<in> set [CHR '' '', CHR 0x09, CHR 0x0A, CHR 0x0B, CHR 0x0C, CHR 0x0D])"

definition split_ws :: "string \<Rightarrow> string list" where
  "split_ws s = filter (\<lambda>w. w \<noteq> []) (split_acc CHR '' '' [] (map (\<lambda>c. if is_space c then CHR '' '' else c) s))"

text \<open>\<open>sep.join(xs)\<close>\<close>

fun join :: "string \<Rightarrow> string list \<Rightarrow> string" where
  "join sep [] = []"
| "join sep [x] = x"
| "join sep (x # y # ys) = x @ sep @ join sep (y # ys)"

text \<open>\<open>string.capwords(s)\<close> and \<open>string.capwords(s, sep)\<close>\<close>

definition capwords :: "string \<Rightarrow> string" where
  "capwords s = join '' '' (map capitalize (split_ws s))"

definition capwords_sep :: "string \<Rightarrow> char \<Rightarrow> string" where
  "capwords_sep s sep = join [sep] (map capitalize (split_on sep s))"

text \<open>
  \<open>prefix.format(app=..., cls=...)\<close>: the prefix template is given already split into
  literal text and the two named placeholders \<open>{app}\<close> and \<open>{cls}\<close> that the driver
  supplies. The default template \<open>'{app}'\<close> is \<open>[AppField]\<close>.
\<close>

datatype piece = Lit string | AppField | ClsField

type_synonym template = "piece list"

fun format_piece :: "string \<Rightarrow> string \<Rightarrow> piece \<Rightarrow> string" where
  "format_piece app cls (Lit s) = s"
| "format_piece app cls AppField = app"
| "format_piece app cls ClsField = cls"

definition format :: "template \<Rightarrow> string \<Rightarrow> string \<Rightarrow> string" where
  "format prefix app cls = concat (map (format_piece app cls) prefix)"

section \<open>Model classes and synthesized types\<close>

text \<open>
  A content-model class, as far as the registration driver looks at it: its identity
  (module and \<open>__name__\<close>), \<open>_meta.verbose_name\<close>, the framework classes among its
  ancestors (what \<open>issubclass\<close> tests) and the StreamFields among \<open>_meta.fields\<close>, each
  with the \<open>child_blocks\<close> of its stream block (block name and block kind).
\<close>

datatype base_class = AbstractForm | WagtailPage | BaseSetting

record py_class =
  cls_module :: string
  cls_name :: string
  verbose_name :: string
  bases :: "base_class list"
  stream_fields :: "(string \<times> (string \<times> string) list) list"

definition issubclass :: "py_class \<Rightarrow> base_class \<Rightarrow> bool" where
  "issubclass cls b = (b \<in> set (bases cls))"

datatype interface = PageInterface | Settings

datatype graphene_base = DjangoObjectType | Mutation

text \<open>What \<open>block_handler(block, app, prefix)\<close> is built from.\<close>

datatype block_handler = BlockHandler string string string

text \<open>The values stored in \<open>dict_params\<close> beside \<open>Meta\<close>.\<close>

datatype attr =
    StreamFieldAttr string string "(string \<times> block_handler) list"
  | StreamFieldResolver string string
  | FormFieldList
  | FormFieldsResolver
  | ArgumentsAttr
  | MutateAttr string string
  | GrapheneString
  | FormErrorList

text \<open>\<open>dict_params\<close>: the inner class \<open>Meta\<close> (\<open>model\<close>, \<open>interfaces\<close>) and the
  other entries in insertion order.\<close>

record dict_params =
  meta_model :: "py_class option"
  meta_interfaces :: "interface list"
  dp_attrs :: "(string \<times> attr) list"

text \<open>The class made by \<open>type(name, (base,), dict_params)\<close>.\<close>

record gql_type =
  type_name :: string
  type_base :: graphene_base
  type_params :: dict_params

definition make_type :: "string \<Rightarrow> graphene_base \<Rightarrow> dict_params \<Rightarrow> gql_type" where
  "make_type name base dp = \<lparr>type_name = name, type_base = base, type_params = dp\<rparr>"

section \<open>The registry\<close>

text \<open>
  Modelled from the spec: the module \<open>registry\<close> is not among the sources. The registry
  is the process-wide store with the buckets \<open>pages\<close> (class to type), \<open>forms\<close> (node
  name to mutation type), \<open>settings\<close> (display name to class), \<open>snippets\<close> (class to
  type), \<open>snippets_by_name\<close> and \<open>django\<close> (node name to type), each a dictionary
  whose insert overwrites unconditionally, and the set \<open>page_prefetch_fields\<close> of
  lower-cased class names, kept here as a list without duplicates.
\<close>

record registry =
  pages :: "py_class \<rightharpoonup> gql_type"
  forms :: "string \<rightharpoonup> gql_type"
  settings :: "string \<rightharpoonup> py_class"
  snippets :: "py_class \<rightharpoonup> gql_type"
  snippets_by_name :: "string \<rightharpoonup> gql_type"
  django :: "string \<rightharpoonup> gql_type"
  page_prefetch_fields :: "string list"

definition empty_registry :: registry where
  "empty_registry = \<lparr>pages = Map.empty, forms = Map.empty, settings = Map.empty,
     snippets = Map.empty, snippets_by_name = Map.empty, django = Map.empty,
     page_prefetch_fields = []\<rparr>"

section \<open>actions.py: the type builders\<close>

text \<open>Every builder mutates the global registry and returns the new type; here it
  returns the type and the updated registry.\<close>

definition add_form :: "registry \<Rightarrow> py_class \<Rightarrow> string \<Rightarrow> dict_params \<Rightarrow> string \<Rightarrow> gql_type \<times> registry" where
  "add_form reg cls node dp url_prefix =
     (let reg1 = reg\<lparr>page_prefetch_fields := List.insert (lower (cls_name cls)) (page_prefetch_fields reg)\<rparr>;
          dp1 = dp\<lparr>meta_interfaces := [PageInterface]\<rparr>;
          dp2 = dp1\<lparr>dp_attrs := AList.update ''form_fields'' FormFieldList (dp_attrs dp1)\<rparr>;
          dp3 = dp2\<lparr>dp_attrs := AList.update ''resolve_form_fields'' FormFieldsResolver (dp_attrs dp2)\<rparr>;
          tp = make_type node DjangoObjectType dp3;
          reg2 = reg1\<lparr>pages := (pages reg1)(cls \<mapsto> tp)\<rparr>;
          mdp = \<lparr>meta_model = None, meta_interfaces = [],
                 dp_attrs = [(''Arguments'', ArgumentsAttr),
                             (''mutate'', MutateAttr node url_prefix),
                             (''result'', GrapheneString),
                             (''errors'', FormErrorList)]\<rparr>;
          mtp = make_type (node @ ''Mutation'') Mutation mdp;
          reg3 = reg2\<lparr>forms := (forms reg2)(node \<mapsto> mtp)\<rparr>
      in (mtp, reg3))"

definition add_page :: "registry \<Rightarrow> py_class \<Rightarrow> string \<Rightarrow> dict_params \<Rightarrow> gql_type \<times> registry" where
  "add_page reg cls node dp =
     (let reg1 = reg\<lparr>page_prefetch_fields := List.insert (lower (cls_name cls)) (page_prefetch_fields reg)\<rparr>;
          dp1 = dp\<lparr>meta_interfaces := [PageInterface]\<rparr>;
          tp = make_type node DjangoObjectType dp1
      in (tp, reg1\<lparr>pages := (pages reg1)(cls \<mapsto> tp)\<rparr>))"

definition add_setting :: "registry \<Rightarrow> py_class \<Rightarrow> string \<Rightarrow> dict_params \<Rightarrow> gql_type \<times> registry" where
  "add_setting reg cls node dp =
     (let dp1 = dp\<lparr>meta_interfaces := [Settings]\<rparr>;
          tp = make_type node DjangoObjectType dp1
      in (tp, reg\<lparr>settings := (settings reg)(capfirst (verbose_name cls) \<mapsto> cls)\<rparr>))"

definition add_snippet :: "registry \<Rightarrow> py_class \<Rightarrow> string \<Rightarrow> dict_params \<Rightarrow> gql_type \<times> registry" where
  "add_snippet reg cls node dp =
     (let tp = make_type node DjangoObjectType dp;
          reg1 = reg\<lparr>snippets := (snippets reg)(cls \<mapsto> tp)\<rparr>
      in (tp, reg1\<lparr>snippets_by_name := (snippets_by_name reg1)(node \<mapsto> tp)\<rparr>))"

definition add_django_model :: "registry \<Rightarrow> py_class \<Rightarrow> string \<Rightarrow> dict_params \<Rightarrow> gql_type \<times> registry" where
  "add_django_model reg cls node dp =
     (let tp = make_type node DjangoObjectType dp
      in (tp, reg\<lparr>django := (django reg)(node \<mapsto> tp)\<rparr>))"

text \<open>\<open>_add_streamfields\<close>: for every StreamField of the class, in field order, the
  field descriptor and its resolver are written into \<open>dict_params\<close>. A class without
  StreamFields leaves \<open>dict_params\<close> as it is.\<close>

definition stream_field_entry ::
  "string \<Rightarrow> string \<Rightarrow> string \<Rightarrow> dict_params \<Rightarrow> string \<times> (string \<times> string) list \<Rightarrow> dict_params" where
  "stream_field_entry node app prefix dp field =
     (let field_name = fst field;
          stream_field_name = node @ filter (\<lambda>c. c \<noteq> CHR ''_'') (capwords_sep field_name CHR ''_'');
          blocks = snd field;
          handlers = map (\<lambda>(name, block). (name, BlockHandler block app prefix)) blocks;
          f = StreamFieldAttr stream_field_name field_name handlers;
          resolve = StreamFieldResolver stream_field_name field_name
      in dp\<lparr>dp_attrs := AList.update (''resolve_'' @ field_name) resolve
                           (AList.update field_name f (dp_attrs dp))\<rparr>)"

definition add_streamfields :: "py_class \<Rightarrow> string \<Rightarrow> dict_params \<Rightarrow> string \<Rightarrow> string \<Rightarrow> dict_params" where
  "add_streamfields cls node dp app prefix =
     foldl (stream_field_entry node app prefix) dp (stream_fields cls)"

section \<open>actions.py: the registration driver\<close>

text \<open>\<open>_register_model\<close>: the state is the set \<open>registered\<close> of the running
  \<open>add_app\<close> call together with the global registry.\<close>

definition node_name :: "template \<Rightarrow> string \<Rightarrow> py_class \<Rightarrow> string" where
  "node_name prefix app cls = format prefix (capwords app) (cls_name cls) @ cls_name cls"

text \<open>The body of \<open>_register_model\<close> below the seen-guard: the node name and
  \<open>dict_params\<close> are built and the builder for the kind of the class is called; the
  result is the updated registry.\<close>

definition register_model_body ::
  "registry \<Rightarrow> py_class \<Rightarrow> bool \<Rightarrow> string \<Rightarrow> template \<Rightarrow> string \<Rightarrow> registry" where
  "register_model_body reg cls snippet app prefix url_prefix =
     (let prefix1 = format prefix (capwords app) (cls_name cls);
          node = prefix1 @ cls_name cls;
          dp0 = \<lparr>meta_model = Some cls, meta_interfaces = [], dp_attrs = []\<rparr>;
          dp = add_streamfields cls node dp0 app prefix1
      in if snippet then snd (add_snippet reg cls node dp)
         else if issubclass cls AbstractForm then snd (add_form reg cls node dp url_prefix)
         else if issubclass cls WagtailPage then snd (add_page reg cls node dp)
         else if issubclass cls BaseSetting then snd (add_setting reg cls node dp)
         else snd (add_django_model reg cls node dp))"

definition register_model ::
  "py_class set \<times> registry \<Rightarrow> py_class \<Rightarrow> bool \<Rightarrow> string \<Rightarrow> template \<Rightarrow> string \<Rightarrow> py_class set \<times> registry" where
  "register_model st cls snippet app prefix url_prefix =
     (let registered = fst st; reg = snd st in
      if cls \<in> registered then st
      else (insert cls registered, register_model_body reg cls snippet app prefix url_prefix))"

text \<open>The loop \<open>for cls in to_register\<close> of \<open>add_app\<close>.\<close>

fun register_loop ::
  "py_class list \<Rightarrow> string \<Rightarrow> template \<Rightarrow> string \<Rightarrow> py_class set \<times> registry \<Rightarrow> py_class list \<Rightarrow> py_class set \<times> registry" where
  "register_loop snips app prefix url_prefix st [] = st"
| "register_loop snips app prefix url_prefix st (cls # rest) =
     register_loop snips app prefix url_prefix
       (register_model st cls (cls \<in> set snips) app prefix url_prefix) rest"

text \<open>What \<open>add_app\<close> reads from Django: the result of \<open>get_snippet_models()\<close> and the
  rows of \<open>ContentType\<close>, whose \<open>model_class()\<close> is \<open>None\<close> for a model that is no
  longer installed.\<close>

record content_type =
  app_label :: string
  model_class :: "py_class option"

record django_models =
  get_snippet_models :: "py_class list"
  content_types :: "content_type list"

definition to_register :: "django_models \<Rightarrow> string \<Rightarrow> py_class list" where
  "to_register dj app =
     (let snips = get_snippet_models dj;
          models = map model_class (filter (\<lambda>mdl. app_label mdl = app) (content_types dj))
      in List.map_filter (\<lambda>x. x) (map Some snips @ models))"

definition add_app :: "django_models \<Rightarrow> registry \<Rightarrow> string \<Rightarrow> template \<Rightarrow> string \<Rightarrow> registry" where
  "add_app dj reg app prefix url_prefix =
     snd (register_loop (get_snippet_models dj) app prefix url_prefix ({}, reg) (to_register dj app))"

section \<open>The data source\<close>

text \<open>
  A row of \<open>wagtailPage\<close> with the columns the resolvers read. The content type of a
  row names the most specific class of the page, so \<open>specific()\<close> changes no row of
  this model. \<open>wagtailPage.objects\<close> is the list of all rows, in the order the manager
  yields them.
\<close>

record page =
  page_id :: int
  url_path :: string
  path :: string
  depth :: int
  live :: bool
  content_type :: content_type

text \<open>A queryset: the rows selected so far and the relations that \<open>select_related\<close>
  was asked to join, one entry per call.\<close>

record queryset =
  rows :: "page list"
  related :: "string list"

definition objects :: "page list \<Rightarrow> queryset" where
  "objects db = \<lparr>rows = db, related = []\<rparr>"

definition filter_id :: "int \<Rightarrow> queryset \<Rightarrow> queryset" where
  "filter_id i q = q\<lparr>rows := filter (\<lambda>p. page_id p = i) (rows q)\<rparr>"

definition filter_url_path :: "string \<Rightarrow> queryset \<Rightarrow> queryset" where
  "filter_url_path u q = q\<lparr>rows := filter (\<lambda>p. url_path p = u) (rows q)\<rparr>"

definition select_related :: "queryset \<Rightarrow> string \<Rightarrow> queryset" where
  "select_related q f = q\<lparr>related := related q @ [f]\<rparr>"

definition specific :: "queryset \<Rightarrow> queryset" where
  "specific q = q"

definition live_pages :: "queryset \<Rightarrow> queryset" where
  "live_pages q = q\<lparr>rows := filter live (rows q)\<rparr>"

text \<open>\<open>order_by('path')\<close>: paths are compared character by character.\<close>

definition order_by_path :: "queryset \<Rightarrow> queryset" where
  "order_by_path q = q\<lparr>rows := sort_key path (rows q)\<rparr>"

definition first :: "queryset \<Rightarrow> page option" where
  "first q = (case rows q of [] \<Rightarrow> None | p # _ \<Rightarrow> Some p)"

text \<open>
  The tree of pages is stored as materialised paths. \<open>descendant_of\<close> and \<open>child_of\<close>
  are the queryset filters of wagtail: a descendant of \<open>other\<close> is another row whose
  path starts with the path of \<open>other\<close>, at the depth of \<open>other\<close> or below; a child
  of \<open>other\<close> is a descendant exactly one level below.
\<close>

definition is_descendant_of :: "page \<Rightarrow> page \<Rightarrow> bool" where
  "is_descendant_of other p =
     (startswith (path p) (path other) \<and> depth other \<le> depth p \<and> page_id p \<noteq> page_id other)"

definition is_child_of :: "page \<Rightarrow> page \<Rightarrow> bool" where
  "is_child_of other p = (is_descendant_of other p \<and> depth p = depth other + 1)"

definition child_of :: "page \<Rightarrow> queryset \<Rightarrow> queryset" where
  "child_of other q = q\<lparr>rows := filter (is_child_of other) (rows q)\<rparr>"

text \<open>The request (\<open>info.context\<close>) and its user.\<close>

record user =
  username :: string
  is_superuser :: bool

record request =
  req_user :: user

text \<open>
  Modelled from the spec: \<open>with_page_permissions\<close> (module \<open>permissions\<close>) is not
  among the sources. It is a pure function of the request and a queryset that only
  narrows the visible set; which pages a request may see is the parameter \<open>perm\<close>.
\<close>

definition with_page_permissions :: "(request \<Rightarrow> page \<Rightarrow> bool) \<Rightarrow> request \<Rightarrow> queryset \<Rightarrow> queryset" where
  "with_page_permissions perm req q = q\<lparr>rows := filter (perm req) (rows q)\<rparr>"

section \<open>Errors\<close>

datatype error = ValueError string | KeyError | AttributeError

text \<open>\<open>str(n)\<close> of an integer, as an f-string prints it.\<close>

fun digits :: "nat \<Rightarrow> string" where
  "digits n = (if n < 10 then [''0123456789'' ! n]
               else digits (n div 10) @ [''0123456789'' ! (n mod 10)])"

declare digits.simps [simp del]

definition str_int :: "int \<Rightarrow> string" where
  "str_int i = (if i < 0 then CHR ''-'' # digits (nat (- i)) else digits (nat i))"

section \<open>types/core.py: the polymorphic resolver\<close>

text \<open>The class \<open>wagtailPage\<close> itself, which \<open>specific()\<close> falls back to when the
  content type of a row has no installed class.\<close>

definition wagtailPage :: py_class where
  "wagtailPage = \<lparr>cls_module = ''wagtail.core.models'', cls_name = ''Page'',
     verbose_name = ''page'', bases = [WagtailPage], stream_fields = []\<rparr>"

text \<open>\<open>registry.pages[key]\<close>: a missing key raises \<open>KeyError\<close>; so does the key
  \<open>None\<close> or \<open>NoneType\<close>, which is never a registered class.\<close>

definition pages_getitem :: "registry \<Rightarrow> py_class option \<Rightarrow> error + gql_type" where
  "pages_getitem reg key =
     (case key of None \<Rightarrow> Inl KeyError
      | Some cls \<Rightarrow> (case pages reg cls of None \<Rightarrow> Inl KeyError | Some tp \<Rightarrow> Inr tp))"

datatype page_instance = IntId int | Obj page

text \<open>\<open>type(p)\<close> of a row loaded through \<open>specific()\<close>.\<close>

definition type_of_specific :: "page \<Rightarrow> py_class" where
  "type_of_specific p = (case model_class (content_type p) of None \<Rightarrow> wagtailPage | Some cls \<Rightarrow> cls)"

definition resolve_type :: "page list \<Rightarrow> registry \<Rightarrow> page_instance \<Rightarrow> error + gql_type" where
  "resolve_type db reg inst =
     (case inst of
        IntId i \<Rightarrow>
          pages_getitem reg (map_option type_of_specific (first (specific (filter_id i (objects db)))))
      | Obj p \<Rightarrow> pages_getitem reg (model_class (content_type p)))"

section \<open>types/core.py: the root queries\<close>

text \<open>The top-level selections of the queried field, as the GraphQL parser delivers
  them.\<close>

datatype selection = Field string | FragmentSpread string | InlineFragment string

record info =
  info_context :: request
  selections :: "selection list"

definition is_inline_fragment :: "selection \<Rightarrow> bool" where
  "is_inline_fragment f = (case f of InlineFragment _ \<Rightarrow> True | _ \<Rightarrow> False)"

definition name_value :: "selection \<Rightarrow> string" where
  "name_value f = (case f of Field n \<Rightarrow> n | FragmentSpread n \<Rightarrow> n | InlineFragment n \<Rightarrow> n)"

text \<open>
  \<open>camelcase_to_underscore\<close> of wagtail: an underscore is put before every capital
  letter that follows a small letter, or that is followed by a character other than a
  capital letter (and is not last, a final newline apart); the result is lower-cased
  and stripped of underscores at both ends.
\<close>

definition is_upper :: "char \<Rightarrow> bool" where
  "is_upper c = (c \<in> set upper_chars)"

definition is_lower :: "char \<Rightarrow> bool" where
  "is_lower c = (c \<in> set lower_chars)"

fun underscore_capitals :: "char option \<Rightarrow> string \<Rightarrow> string" where
  "underscore_capitals prev [] = []"
| "underscore_capitals prev (c # cs) =
     (if is_upper c \<and>
         ((case prev of None \<Rightarrow> False | Some p \<Rightarrow> is_lower p) \<or>
          (case cs of [] \<Rightarrow> False | d # ds \<Rightarrow> \<not> is_upper d \<and> cs \<noteq> [CHR 0x0A]))
      then CHR ''_'' # c # underscore_capitals (Some c) cs
      else c # underscore_capitals (Some c) cs)"

definition camelcase_to_underscore :: "string \<Rightarrow> string" where
  "camelcase_to_underscore s = strip CHR ''_'' (lower (underscore_capitals None s))"

text \<open>The set \<open>selections\<close> of \<open>resolve_pages\<close>, as a list.\<close>

definition selection_names :: "info \<Rightarrow> string list" where
  "selection_names info =
     map (\<lambda>f. camelcase_to_underscore (name_value f))
         (filter (\<lambda>f. \<not> is_inline_fragment f) (selections info))"

definition prefetch_intersection :: "registry \<Rightarrow> string list \<Rightarrow> string list" where
  "prefetch_intersection reg sels = filter (\<lambda>pf. pf \<in> set sels) (page_prefetch_fields reg)"

text \<open>The tail of \<open>resolve_pages\<close>:
  \<open>with_page_permissions(info.context, query.specific()).live().order_by('path').all()\<close>.\<close>

definition visible_live_by_path :: "(request \<Rightarrow> page \<Rightarrow> bool) \<Rightarrow> info \<Rightarrow> queryset \<Rightarrow> queryset" where
  "visible_live_by_path perm info q =
     order_by_path (live_pages (with_page_permissions perm (info_context info) (specific q)))"

definition resolve_pages ::
  "(request \<Rightarrow> page \<Rightarrow> bool) \<Rightarrow> page list \<Rightarrow> registry \<Rightarrow> info \<Rightarrow> int option \<Rightarrow> error + queryset" where
  "resolve_pages perm db reg info parent =
     (let query = objects db;
          sels = selection_names info;
          query1 = foldl select_related query (prefetch_intersection reg sels)
      in case parent of
           None \<Rightarrow> Inr (visible_live_by_path perm info query1)
         | Some par \<Rightarrow>
             (case first (filter_id par (objects db)) of
                None \<Rightarrow> Inl (ValueError (''Page id='' @ str_int par @ '' not found.''))
              | Some parent_page \<Rightarrow>
                  Inr (visible_live_by_path perm info (child_of parent_page query1))))"

text \<open>\<open>resolve_page\<close>; the constant \<open>URL_PREFIX\<close> of the module \<open>settings\<close> is a
  parameter.\<close>

definition one_of_msg :: string where
  "one_of_msg = ''One of '' @ [CHR 0x27] @ ''id'' @ [CHR 0x27] @ '' or '' @ [CHR 0x27] @ ''url''
                 @ [CHR 0x27] @ '' must be specified''"

definition url_to_path :: "string \<Rightarrow> string \<Rightarrow> string" where
  "url_to_path url_prefix url = url_prefix @ rstrip CHR ''/'' url @ ''/''"

text \<open>The tail of \<open>resolve_page\<close>: \<open>with_page_permissions(info.context,
  query.select_related('content_type').specific()).live().first()\<close>.\<close>

definition visible_live_first :: "(request \<Rightarrow> page \<Rightarrow> bool) \<Rightarrow> info \<Rightarrow> queryset \<Rightarrow> page option" where
  "visible_live_first perm info q =
     first (live_pages (with_page_permissions perm (info_context info)
              (specific (select_related q ''content_type''))))"

definition resolve_page ::
  "string \<Rightarrow> (request \<Rightarrow> page \<Rightarrow> bool) \<Rightarrow> page list \<Rightarrow> info \<Rightarrow> int option \<Rightarrow> string option
     \<Rightarrow> error + page option" where
  "resolve_page URL_PREFIX perm db info ident url =
     (case ident of
        Some i \<Rightarrow> Inr (visible_live_first perm info (filter_id i (objects db)))
      | None \<Rightarrow>
          (case url of
             Some u \<Rightarrow>
               Inr (visible_live_first perm info (filter_url_path (url_to_path URL_PREFIX u) (objects db)))
           | None \<Rightarrow> Inl (ValueError one_of_msg)))"

section \<open>actions.py: the form mutation\<close>

text \<open>
  The form engine is outside the repository: \<open>instance.get_form(values, None,
  page=instance, user=user)\<close> is the parameter \<open>get_form\<close>, and the bound form shows
  \<open>is_valid()\<close> and \<open>errors.items()\<close>, the failing fields with their messages in the
  order the form reports them. \<open>instance.process_form_submission(form)\<close> is recorded
  in the list of submissions, the state that \<open>mutate\<close> changes. \<open>get_form\<close> is a
  method of \<open>AbstractForm\<close>: when no page is found, or the page found is of a class
  that is no form, the attribute is missing and \<open>mutate\<close> raises \<open>AttributeError\<close>.
\<close>

record form =
  is_valid :: bool
  errors :: "(string \<times> string list) list"

text \<open>Modelled from the spec: \<open>FormError\<close> (module \<open>types\<close>) is not among the
  sources; it carries a field name and the messages of that field.\<close>

datatype form_error = FormError string "string list"

text \<open>An instance of the mutation type \<open>registry.forms[_node]\<close>; a field that the
  constructor call does not pass is \<open>None\<close>.\<close>

record mutation_result =
  instance_of :: gql_type
  result :: "string option"
  result_errors :: "form_error list option"

definition forms_getitem :: "registry \<Rightarrow> string \<Rightarrow> error + gql_type" where
  "forms_getitem reg node =
     (case forms reg node of None \<Rightarrow> Inl KeyError | Some tp \<Rightarrow> Inr tp)"

text \<open>The page that \<open>mutate\<close> binds the form to.\<close>

definition form_instance ::
  "(request \<Rightarrow> page \<Rightarrow> bool) \<Rightarrow> page list \<Rightarrow> string \<Rightarrow> info \<Rightarrow> string \<Rightarrow> page option" where
  "form_instance perm db url_prefix info url =
     (let query = filter_url_path (url_prefix @ rstrip CHR ''/'' url @ ''/'') (objects db)
      in first (live_pages (with_page_permissions perm (info_context info) (specific query))))"

definition mutate ::
  "registry \<Rightarrow> (request \<Rightarrow> page \<Rightarrow> bool) \<Rightarrow> page list \<Rightarrow> (page \<Rightarrow> 'v \<Rightarrow> user \<Rightarrow> form)
     \<Rightarrow> string \<Rightarrow> string \<Rightarrow> (page \<times> form) list \<Rightarrow> info \<Rightarrow> string \<Rightarrow> 'v
     \<Rightarrow> (error + mutation_result) \<times> (page \<times> form) list" where
  "mutate reg perm db get_form node url_prefix submissions info url vals =
     (case form_instance perm db url_prefix info url of
        None \<Rightarrow> (Inl AttributeError, submissions)
      | Some inst \<Rightarrow>
          if \<not> issubclass (type_of_specific inst) AbstractForm then (Inl AttributeError, submissions)
          else
             (let usr = req_user (info_context info);
                  frm = get_form inst vals usr
              in if is_valid frm then
                   (let submissions1 = submissions @ [(inst, frm)]
                    in (case forms_getitem reg node of
                          Inl e \<Rightarrow> (Inl e, submissions1)
                        | Inr tp \<Rightarrow>
                            (Inr \<lparr>instance_of = tp, result = Some ''OK'', result_errors = None\<rparr>,
                             submissions1)))
                 else
                   (case forms_getitem reg node of
                      Inl e \<Rightarrow> (Inl e, submissions)
                    | Inr tp \<Rightarrow>
                        (Inr \<lparr>instance_of = tp, result = Some ''FAIL'',
                              result_errors = Some (map (\<lambda>(name, msgs). FormError name msgs) (errors frm))\<rparr>,
                         submissions))))"

section \<open>types/core.py: the User type\<close>

text \<open>
  \<open>class User(DjangoObjectType)\<close> declares only its \<open>Meta\<close>: the model and
  \<open>exclude_fields\<close>. \<open>DjangoObjectType\<close> gives the type one field for every field of
  the model whose name is not excluded. The field names of the model \<open>wagtailUser\<close>
  are a parameter.
\<close>

record object_type_meta =
  model_fields :: "string list"
  exclude_fields :: "string list"

definition object_type_fields :: "object_type_meta \<Rightarrow> string list" where
  "object_type_fields meta = filter (\<lambda>f. f \<notin> set (exclude_fields meta)) (model_fields meta)"

definition User_Meta :: "string list \<Rightarrow> object_type_meta" where
  "User_Meta wagtailUser_fields = \<lparr>model_fields = wagtailUser_fields, exclude_fields = [''password'']\<rparr>"

definition User_fields :: "string list \<Rightarrow> string list" where
  "User_fields wagtailUser_fields = object_type_fields (User_Meta wagtailUser_fields)"

section \<open>Registry buckets of a class\<close>

text \<open>
  The buckets in which a class appears: \<open>pages\<close> and \<open>snippets\<close> by the class as key,
  \<open>forms\<close> and \<open>django\<close> by its node name as key, \<open>settings\<close> by the class stored
  under its display name.
\<close>

datatype bucket = PagesBucket | FormsBucket | SettingsBucket | SnippetsBucket | DjangoBucket

definition all_buckets :: "bucket list" where
  "all_buckets = [PagesBucket, FormsBucket, SettingsBucket, SnippetsBucket, DjangoBucket]"

fun in_bucket :: "registry \<Rightarrow> string \<Rightarrow> py_class \<Rightarrow> bucket \<Rightarrow> bool" where
  "in_bucket reg node cls PagesBucket = (pages reg cls \<noteq> None)"
| "in_bucket reg node cls FormsBucket = (forms reg node \<noteq> None)"
| "in_bucket reg node cls SettingsBucket = (settings reg (capfirst (verbose_name cls)) = Some cls)"
| "in_bucket reg node cls SnippetsBucket = (snippets reg cls \<noteq> None)"
| "in_bucket reg node cls DjangoBucket = (django reg node \<noteq> None)"

definition buckets_of :: "registry \<Rightarrow> string \<Rightarrow> py_class \<Rightarrow> bucket list" where
  "buckets_of reg node cls = filter (in_bucket reg node cls) all_buckets"

text \<open>The buckets that the branch of \<open>_register_model\<close> taken for a class writes.\<close>

definition classify :: "py_class \<Rightarrow> bool \<Rightarrow> bucket list" where
  "classify cls snippet =
     (if snippet then [SnippetsBucket]
      else if issubclass cls AbstractForm then [PagesBucket, FormsBucket]
      else if issubclass cls WagtailPage then [PagesBucket]
      else if issubclass cls BaseSetting then [SettingsBucket]
      else [DjangoBucket])"

text \<open>
  A class \<open>c\<close> of a run clashes with the class \<open>cls\<close>: \<open>c\<close> is registered as a form
  or as a generic record under the node name of \<open>cls\<close>, and \<open>cls\<close> is not; or both
  are registered as settings, under the same display name.
\<close>

definition clashes :: "template \<Rightarrow> string \<Rightarrow> py_class list \<Rightarrow> py_class \<Rightarrow> py_class \<Rightarrow> bool" where
  "clashes prefix app snips c cls =
     (let kc = classify c (c \<in> set snips); k = classify cls (cls \<in> set snips) in
      (node_name prefix app c = node_name prefix app cls \<and>
         ((FormsBucket \<in> set kc \<and> FormsBucket \<notin> set k) \<or>
          (DjangoBucket \<in> set kc \<and> DjangoBucket \<notin> set k))) \<or>
      (capfirst (verbose_name c) = capfirst (verbose_name cls) \<and>
         SettingsBucket \<in> set kc \<and> SettingsBucket \<in> set k))"

text \<open>The registry holds an entry under the key that a bucket uses for a class.\<close>

fun has_entry :: "registry \<Rightarrow> string \<Rightarrow> py_class \<Rightarrow> bucket \<Rightarrow> bool" where
  "has_entry reg node cls PagesBucket = (pages reg cls \<noteq> None)"
| "has_entry reg node cls FormsBucket = (forms reg node \<noteq> None)"
| "has_entry reg node cls SettingsBucket = (settings reg (capfirst (verbose_name cls)) \<noteq> None)"
| "has_entry reg node cls SnippetsBucket = (snippets reg cls \<noteq> None)"
| "has_entry reg node cls DjangoBucket = (django reg node \<noteq> None)"

section \<open>Example site\<close>

definition blog_page :: py_class where
  "blog_page = \<lparr>cls_module = ''blog.models'', cls_name = ''BlogPage'',
     verbose_name = ''blog page'', bases = [WagtailPage],
     stream_fields = [(''body'', [(''heading'', ''CharBlock''), (''paragraph'', ''RichTextBlock'')])]\<rparr>"

definition contact_form :: py_class where
  "contact_form = \<lparr>cls_module = ''blog.models'', cls_name = ''ContactForm'',
     verbose_name = ''contact form'', bases = [AbstractForm, WagtailPage], stream_fields = []\<rparr>"

definition advert :: py_class where
  "advert = \<lparr>cls_module = ''blog.models'', cls_name = ''Advert'', verbose_name = ''advert'',
     bases = [], stream_fields = []\<rparr>"

definition product_page :: py_class where
  "product_page = \<lparr>cls_module = ''shop.models'', cls_name = ''ProductPage'',
     verbose_name = ''product page'', bases = [WagtailPage], stream_fields = []\<rparr>"

definition header_settings :: py_class where
  "header_settings = \<lparr>cls_module = ''site.models'', cls_name = ''HeaderSettings'',
     verbose_name = ''site settings'', bases = [BaseSetting], stream_fields = []\<rparr>"

definition footer_settings :: py_class where
  "footer_settings = \<lparr>cls_module = ''site.models'', cls_name = ''FooterSettings'',
     verbose_name = ''site settings'', bases = [BaseSetting], stream_fields = []\<rparr>"

definition example_models :: django_models where
  "example_models = \<lparr>get_snippet_models = [advert],
     content_types = [\<lparr>app_label = ''blog'', model_class = Some blog_page\<rparr>,
                      \<lparr>app_label = ''blog'', model_class = Some advert\<rparr>,
                      \<lparr>app_label = ''blog'', model_class = None\<rparr>,
                      \<lparr>app_label = ''blog'', model_class = Some contact_form\<rparr>,
                      \<lparr>app_label = ''shop'', model_class = Some product_page\<rparr>,
                      \<lparr>app_label = ''site'', model_class = Some header_settings\<rparr>,
                      \<lparr>app_label = ''site'', model_class = Some footer_settings\<rparr>]\<rparr>"

definition example_registry :: registry where
  "example_registry = add_app example_models empty_registry ''blog'' [AppField] ''/home/''"

definition blog_page_type :: gql_type where
  "blog_page_type = \<lparr>type_name = ''BlogBlogPage'', type_base = DjangoObjectType,
     type_params = \<lparr>meta_model = Some blog_page, meta_interfaces = [PageInterface],
       dp_attrs = [(''body'', StreamFieldAttr ''BlogBlogPageBody'' ''body''
                      [(''heading'', BlockHandler ''CharBlock'' ''blog'' ''Blog''),
                       (''paragraph'', BlockHandler ''RichTextBlock'' ''blog'' ''Blog'')]),
                   (''resolve_body'', StreamFieldResolver ''BlogBlogPageBody'' ''body'')]\<rparr>\<rparr>"

definition contact_form_mutation :: gql_type where
  "contact_form_mutation = \<lparr>type_name = ''BlogContactFormMutation'', type_base = Mutation,
     type_params = \<lparr>meta_model = None, meta_interfaces = [],
       dp_attrs = [(''Arguments'', ArgumentsAttr),
                   (''mutate'', MutateAttr ''BlogContactForm'' ''/home/''),
                   (''result'', GrapheneString), (''errors'', FormErrorList)]\<rparr>\<rparr>"

definition home_page :: page where
  "home_page = \<lparr>page_id = 1, url_path = ''/home/'', path = ''0001'', depth = 1, live = True,
     content_type = \<lparr>app_label = ''blog'', model_class = Some blog_page\<rparr>\<rparr>"

definition about_page :: page where
  "about_page = \<lparr>page_id = 2, url_path = ''/home/about/'', path = ''00010001'', depth = 2,
     live = True, content_type = \<lparr>app_label = ''blog'', model_class = Some blog_page\<rparr>\<rparr>"

definition team_page :: page where
  "team_page = \<lparr>page_id = 3, url_path = ''/home/about/team/'', path = ''000100010001'',
     depth = 3, live = True, content_type = \<lparr>app_label = ''blog'', model_class = Some blog_page\<rparr>\<rparr>"

definition contact_page :: page where
  "contact_page = \<lparr>page_id = 4, url_path = ''/home/contact/'', path = ''00010002'', depth = 2,
     live = True, content_type = \<lparr>app_label = ''blog'', model_class = Some contact_form\<rparr>\<rparr>"

definition draft_page :: page where
  "draft_page = \<lparr>page_id = 5, url_path = ''/home/draft/'', path = ''00010003'', depth = 2,
     live = False, content_type = \<lparr>app_label = ''blog'', model_class = Some blog_page\<rparr>\<rparr>"

definition private_page :: page where
  "private_page = \<lparr>page_id = 6, url_path = ''/home/private/'', path = ''00010004'', depth = 2,
     live = True, content_type = \<lparr>app_label = ''blog'', model_class = Some blog_page\<rparr>\<rparr>"

definition example_db :: "page list" where
  "example_db = [home_page, about_page, team_page, contact_page, draft_page, private_page]"

definition example_perm :: "request \<Rightarrow> page \<Rightarrow> bool" where
  "example_perm req p = (is_superuser (req_user req) \<or> page_id p \<noteq> 6)"

definition anonymous :: request where
  "anonymous = \<lparr>req_user = \<lparr>username = ''anonymous'', is_superuser = False\<rparr>\<rparr>"

definition example_info :: info where
  "example_info = \<lparr>info_context = anonymous,
     selections = [Field ''title'', Field ''blogpage'', InlineFragment ''BlogBlogPage'']\<rparr>"

definition fragment_info :: info where
  "fragment_info = \<lparr>info_context = anonymous,
     selections = [Field ''title'', FragmentSpread ''Blogpage'']\<rparr>"

definition example_get_form :: "page \<Rightarrow> (string \<times> string) list \<Rightarrow> user \<Rightarrow> form" where
  "example_get_form p vals usr =
     (case map_of vals ''email'' of
        None \<Rightarrow> \<lparr>is_valid = False, errors = [(''email'', [''This field is required.''])]\<rparr>
      | Some e \<Rightarrow>
          if CHR ''@'' \<in> set e then \<lparr>is_valid = True, errors = []\<rparr>
          else \<lparr>is_valid = False, errors = [(''email'', [''Invalid''])]\<rparr>)"

section \<open>Properties of the registration driver\<close>

lemma register_model_seen:
  "cls \<in> fst st \<Longrightarrow> register_model st cls snippet app prefix up = st"
  by (simp add: register_model_def)

lemma register_model_unseen:
  "cls \<notin> fst st \<Longrightarrow>
   register_model st cls snippet app prefix up =
     (insert cls (fst st), register_model_body (snd st) cls snippet app prefix up)"
  by (simp add: register_model_def)

lemma register_model_marks:
  "fst (register_model st cls snippet app prefix up) = insert cls (fst st)"
  by (auto simp add: register_model_def Let_def)

lemma register_loop_append:
  "register_loop snips app prefix up st (xs @ ys) =
   register_loop snips app prefix up (register_loop snips app prefix up st xs) ys"
  by (induction xs arbitrary: st) simp_all

lemma register_loop_seen:
  "fst (register_loop snips app prefix up st xs) = fst st \<union> set xs"
  by (induction xs arbitrary: st) (simp_all add: register_model_marks)

lemma register_loop_first_occurrences:
  "register_loop snips app prefix up st xs =
   register_loop snips app prefix up st (rev (remdups (rev xs)))"
proof (induction xs arbitrary: st rule: rev_induct)
  case Nil
  then show ?case by simp
next
  case (snoc x xs)
  show ?case
  proof (cases "x \<in> set xs")
    case True
    then have "x \<in> fst (register_loop snips app prefix up st xs)"
      by (simp add: register_loop_seen)
    then show ?thesis using True snoc [of st]
      by (simp add: register_loop_append register_model_seen)
  next
    case False
    then show ?thesis using snoc [of st]
      by (simp add: register_loop_append)
  qed
qed

lemma register_loop_repeat:
  assumes "j < length xs" and "xs ! j \<in> set (take j xs)"
  shows "register_loop snips app prefix up st (take (Suc j) xs) =
         register_loop snips app prefix up st (take j xs)"
proof -
  have "xs ! j \<in> fst (register_loop snips app prefix up st (take j xs))"
    using assms(2) by (simp add: register_loop_seen)
  then show ?thesis
    using assms(1) by (simp add: take_Suc_conv_app_nth register_loop_append register_model_seen)
qed

lemma register_loop_distinct:
  assumes "distinct ys" and "set ys \<inter> fst st = {}"
  shows "snd (register_loop snips app prefix up st ys) =
         foldl (\<lambda>r c. register_model_body r c (c \<in> set snips) app prefix up) (snd st) ys"
  using assms
proof (induction ys arbitrary: st)
  case Nil
  then show ?case by simp
next
  case (Cons c ys)
  from Cons.prems have c: "c \<notin> fst st" by auto
  let ?st = "(insert c (fst st), register_model_body (snd st) c (c \<in> set snips) app prefix up)"
  have d: "distinct ys" and i: "set ys \<inter> fst ?st = {}"
    using Cons.prems by auto
  show ?case
    using Cons.IH [OF d i] by (simp add: register_model_unseen [OF c])
qed

lemma example_to_register:
  "to_register example_models ''blog'' = [advert, blog_page, advert, contact_form]"
  by (simp add: to_register_def example_models_def List.map_filter_def)

lemma example_registry_pages: "pages example_registry blog_page = Some blog_page_type"
  by code_simp

lemma example_registry_forms:
  "forms example_registry ''BlogContactForm'' = Some contact_form_mutation"
  by code_simp

subsection \<open>Round trip of registration and resolution\<close>

text \<open>
  C1. A class registered into the \<open>pages\<close> bucket with the synthesized type \<open>T\<close> is
  resolved back to \<open>T\<close>: for every instance whose recorded content type maps to that
  class, \<open>resolve_type\<close> returns exactly \<open>T\<close> and raises nothing; so it does for the
  bare id of such an instance, when the instance is the row loaded for that id.
\<close>

theorem resolve_type_round_trip:
  assumes "pages reg cls = Some T"
    and "model_class (content_type p) = Some cls"
  shows "resolve_type db reg (Obj p) = Inr T \<and>
         (first (filter_id i (objects db)) = Some p \<longrightarrow> resolve_type db reg (IntId i) = Inr T)"
  using assms
  by (simp add: resolve_type_def pages_getitem_def specific_def type_of_specific_def)

text \<open>The blog page type that \<open>add_app\<close> registers for the example site is the type
  that the page \<open>/home/about/\<close> resolves to.\<close>

theorem resolve_type_round_trip_witness:
  "pages example_registry blog_page = Some blog_page_type \<and>
   model_class (content_type about_page) = Some blog_page \<and>
   resolve_type example_db example_registry (Obj about_page) = Inr blog_page_type \<and>
   resolve_type example_db example_registry (IntId 2) = Inr blog_page_type"
proof -
  have ct: "model_class (content_type about_page) = Some blog_page"
    by (simp add: about_page_def)
  have row: "first (filter_id 2 (objects example_db)) = Some about_page"
    by code_simp
  show ?thesis
    using resolve_type_round_trip [OF example_registry_pages ct, of example_db 2]
      example_registry_pages ct row by simp
qed

subsection \<open>Buckets of a registered class\<close>

lemma in_bucket_body_own:
  "in_bucket (register_model_body reg cls snippet app prefix up) (node_name prefix app cls) cls b
   \<longleftrightarrow> b \<in> set (classify cls snippet) \<or> in_bucket reg (node_name prefix app cls) cls b"
  by (cases b)
     (auto simp add: register_model_body_def classify_def node_name_def Let_def
        add_snippet_def add_form_def add_page_def add_setting_def add_django_model_def)

lemma in_bucket_body_other_new:
  assumes "c \<noteq> cls" and "\<not> clashes prefix app snips c cls"
    and "in_bucket (register_model_body reg c (c \<in> set snips) app prefix up)
           (node_name prefix app cls) cls b"
  shows "in_bucket reg (node_name prefix app cls) cls b \<or>
         b \<in> set (classify cls (cls \<in> set snips))"
  using assms
  by (cases b)
     (auto simp add: register_model_body_def clashes_def classify_def node_name_def Let_def
        add_snippet_def add_form_def add_page_def add_setting_def add_django_model_def
        split: if_splits)

lemma in_bucket_body_other_kept:
  assumes "c \<noteq> cls" and "\<not> clashes prefix app snips c cls"
    and "in_bucket reg (node_name prefix app cls) cls b"
    and "b \<in> set (classify cls (cls \<in> set snips))"
  shows "in_bucket (register_model_body reg c (c \<in> set snips) app prefix up)
           (node_name prefix app cls) cls b"
  using assms
  by (cases b)
     (auto simp add: register_model_body_def clashes_def classify_def node_name_def Let_def
        add_snippet_def add_form_def add_page_def add_setting_def add_django_model_def
        split: if_splits)

lemma in_bucket_register_loop:
  assumes "\<forall>c\<in>set xs. c \<noteq> cls \<longrightarrow> \<not> clashes prefix app snips c cls"
    and "\<forall>b. in_bucket (snd st) (node_name prefix app cls) cls b \<longrightarrow>
             b \<in> set (classify cls (cls \<in> set snips))"
    and "cls \<in> fst st \<longrightarrow>
           (\<forall>b. b \<in> set (classify cls (cls \<in> set snips)) \<longrightarrow>
                in_bucket (snd st) (node_name prefix app cls) cls b)"
    and "cls \<in> fst st \<or> cls \<in> set xs"
  shows "in_bucket (snd (register_loop snips app prefix up st xs)) (node_name prefix app cls) cls b
         \<longleftrightarrow> b \<in> set (classify cls (cls \<in> set snips))"
  using assms
proof (induction xs arbitrary: st)
  case Nil
  then show ?case by auto
next
  case (Cons c xs)
  let ?st = "register_model st c (c \<in> set snips) app prefix up"
  have h1: "\<forall>c\<in>set xs. c \<noteq> cls \<longrightarrow> \<not> clashes prefix app snips c cls"
    using Cons.prems(1) by simp
  have step: "(\<forall>b. in_bucket (snd ?st) (node_name prefix app cls) cls b \<longrightarrow>
                   b \<in> set (classify cls (cls \<in> set snips))) \<and>
              (cls \<in> fst ?st \<longrightarrow>
                 (\<forall>b. b \<in> set (classify cls (cls \<in> set snips)) \<longrightarrow>
                      in_bucket (snd ?st) (node_name prefix app cls) cls b))"
  proof (cases "c \<in> fst st")
    case True
    then show ?thesis
      using Cons.prems(2,3) by (simp add: register_model_seen)
  next
    case unseen: False
    show ?thesis
    proof (cases "c = cls")
      case True
      then show ?thesis
        using Cons.prems(2) unseen
        by (simp add: register_model_unseen in_bucket_body_own)
    next
      case False
      then have nc: "\<not> clashes prefix app snips c cls"
        using Cons.prems(1) by simp
      have st: "?st = (insert c (fst st),
                       register_model_body (snd st) c (c \<in> set snips) app prefix up)"
        by (rule register_model_unseen [OF unseen])
      have new: "b \<in> set (classify cls (cls \<in> set snips))"
        if "in_bucket (snd ?st) (node_name prefix app cls) cls b" for b
        using in_bucket_body_other_new [OF False nc, of "snd st" up b] that Cons.prems(2)
        unfolding st by auto
      have kept: "in_bucket (snd ?st) (node_name prefix app cls) cls b"
        if "cls \<in> fst ?st" and "b \<in> set (classify cls (cls \<in> set snips))" for b
      proof -
        from that(1) False have "cls \<in> fst st"
          unfolding st by simp
        with Cons.prems(3) that(2) have "in_bucket (snd st) (node_name prefix app cls) cls b"
          by blast
        from in_bucket_body_other_kept [OF False nc this that(2)] show ?thesis
          unfolding st by simp
      qed
      from new kept show ?thesis by blast
    qed
  qed
  have h4: "cls \<in> fst ?st \<or> cls \<in> set xs"
    using Cons.prems(4) by (auto simp add: register_model_marks)
  show ?case
    using Cons.IH [OF h1 conjunct1 [OF step] conjunct2 [OF step] h4] by simp
qed

lemma set_buckets_of: "set (buckets_of reg node cls) = {b. in_bucket reg node cls b}"
proof -
  have "b \<in> set all_buckets" for b
    by (cases b) (simp_all add: all_buckets_def)
  then show ?thesis
    by (auto simp add: buckets_of_def)
qed

lemma classify_sublist: "filter (\<lambda>b. b \<in> set (classify cls snippet)) all_buckets = classify cls snippet"
  by (simp add: classify_def all_buckets_def)

lemma buckets_of_eq_classify:
  assumes "\<And>b. in_bucket reg node cls b \<longleftrightarrow> b \<in> set (classify cls snippet)"
  shows "buckets_of reg node cls = classify cls snippet"
proof -
  have "buckets_of reg node cls = filter (\<lambda>b. b \<in> set (classify cls snippet)) all_buckets"
    unfolding buckets_of_def by (rule filter_cong) (simp_all add: assms)
  then show ?thesis by (simp add: classify_sublist)
qed

text \<open>
  C2, as stated: every class that the driver processes is afterwards in exactly one
  bucket. It fails in two ways. A form class is in two buckets: \<open>_add_form\<close> stores
  the page type of the class in \<open>pages\<close> and its mutation type in \<open>forms\<close>. A setting
  whose display name a later setting of the run also has is overwritten and is in no
  bucket.
\<close>

theorem form_class_in_two_buckets:
  "to_register example_models ''blog'' = [advert, blog_page, advert, contact_form] \<and>
   buckets_of (add_app example_models empty_registry ''blog'' [AppField] ''/home/'')
     (node_name [AppField] ''blog'' contact_form) contact_form = [PagesBucket, FormsBucket] \<and>
   to_register example_models ''site'' = [advert, header_settings, footer_settings] \<and>
   buckets_of (add_app example_models empty_registry ''site'' [AppField] ''/home/'')
     (node_name [AppField] ''site'' header_settings) header_settings = []"
  by code_simp

text \<open>
  C2, amended. Take a run of \<open>add_app\<close> and a class that the run processes, such that
  before the run the class is in no bucket outside its classification, and no other
  class of the run clashes with it. After the run the class is in exactly the buckets
  of its classification, by the precedence snippet, form, page, setting, generic
  record: in exactly one bucket, except for a form class, which is in two, \<open>pages\<close>
  (by class) and \<open>forms\<close> (by node name).
\<close>

theorem buckets_after_add_app:
  assumes "cls \<in> set (to_register dj app)"
    and "set (buckets_of reg (node_name prefix app cls) cls)
           \<subseteq> set (classify cls (cls \<in> set (get_snippet_models dj)))"
    and "\<forall>c\<in>set (to_register dj app).
           c \<noteq> cls \<longrightarrow> \<not> clashes prefix app (get_snippet_models dj) c cls"
  shows "buckets_of (add_app dj reg app prefix up) (node_name prefix app cls) cls
           = classify cls (cls \<in> set (get_snippet_models dj)) \<and>
         length (buckets_of (add_app dj reg app prefix up) (node_name prefix app cls) cls)
           = (if cls \<notin> set (get_snippet_models dj) \<and> issubclass cls AbstractForm then 2 else 1)"
proof -
  let ?snips = "get_snippet_models dj"
  have start: "\<forall>b. in_bucket (snd ({}, reg)) (node_name prefix app cls) cls b \<longrightarrow>
                   b \<in> set (classify cls (cls \<in> set ?snips))"
    using assms(2) by (auto simp add: set_buckets_of)
  have seen: "cls \<in> fst ({}, reg) \<longrightarrow>
           (\<forall>b. b \<in> set (classify cls (cls \<in> set ?snips)) \<longrightarrow>
                in_bucket (snd ({}, reg)) (node_name prefix app cls) cls b)"
    by simp
  have listed: "cls \<in> fst ({}, reg) \<or> cls \<in> set (to_register dj app)"
    using assms(1) by simp
  have "in_bucket (add_app dj reg app prefix up) (node_name prefix app cls) cls b
          \<longleftrightarrow> b \<in> set (classify cls (cls \<in> set ?snips))" for b
    unfolding add_app_def
    by (rule in_bucket_register_loop [OF assms(3) start seen listed])
  then have eq: "buckets_of (add_app dj reg app prefix up) (node_name prefix app cls) cls
                   = classify cls (cls \<in> set ?snips)"
    by (rule buckets_of_eq_classify)
  have "length (classify cls (cls \<in> set ?snips))
          = (if cls \<notin> set ?snips \<and> issubclass cls AbstractForm then 2 else 1)"
    by (simp add: classify_def)
  with eq show ?thesis by simp
qed

text \<open>The run for the app \<open>blog\<close> on the empty registry puts \<open>BlogPage\<close> into
  \<open>pages\<close> only; the later run for the app \<open>shop\<close> registers the snippet \<open>Advert\<close>
  again and leaves it in \<open>snippets\<close> only.\<close>

theorem buckets_after_add_app_witness:
  "buckets_of (add_app example_models empty_registry ''blog'' [AppField] ''/home/'')
     (node_name [AppField] ''blog'' blog_page) blog_page = [PagesBucket] \<and>
   buckets_of example_registry (node_name [AppField] ''shop'' advert) advert = [SnippetsBucket] \<and>
   buckets_of (add_app example_models example_registry ''shop'' [AppField] ''/home/'')
     (node_name [AppField] ''shop'' advert) advert = [SnippetsBucket]"
proof -
  have s: "get_snippet_models example_models = [advert]"
    by (simp add: example_models_def)
  have shop: "to_register example_models ''shop'' = [advert, product_page]"
    by (simp add: to_register_def example_models_def List.map_filter_def)
  have a1: "blog_page \<in> set (to_register example_models ''blog'')"
    by (simp add: example_to_register)
  have a2: "set (buckets_of empty_registry (node_name [AppField] ''blog'' blog_page) blog_page)
              \<subseteq> set (classify blog_page (blog_page \<in> set (get_snippet_models example_models)))"
    by (simp add: buckets_of_def all_buckets_def empty_registry_def)
  have a3: "\<forall>c\<in>set (to_register example_models ''blog'').
              c \<noteq> blog_page \<longrightarrow> \<not> clashes [AppField] ''blog'' (get_snippet_models example_models) c blog_page"
    unfolding example_to_register s by code_simp
  have c1: "classify blog_page (blog_page \<in> set (get_snippet_models example_models)) = [PagesBucket]"
    unfolding s by code_simp
  have b1: "advert \<in> set (to_register example_models ''shop'')"
    by (simp add: shop)
  have before: "buckets_of example_registry (node_name [AppField] ''shop'' advert) advert = [SnippetsBucket]"
    by code_simp
  have c2: "classify advert (advert \<in> set (get_snippet_models example_models)) = [SnippetsBucket]"
    unfolding s by code_simp
  have b2: "set (buckets_of example_registry (node_name [AppField] ''shop'' advert) advert)
              \<subseteq> set (classify advert (advert \<in> set (get_snippet_models example_models)))"
    unfolding before c2 by simp
  have b3: "\<forall>c\<in>set (to_register example_models ''shop'').
              c \<noteq> advert \<longrightarrow> \<not> clashes [AppField] ''shop'' (get_snippet_models example_models) c advert"
    unfolding shop s by code_simp
  from buckets_after_add_app [OF a1 a2 a3, of "''/home/''"]
    buckets_after_add_app [OF b1 b2 b3, of "''/home/''"]
  show ?thesis
    unfolding c1 c2 using before by simp
qed

subsection \<open>The seen-guard\<close>

lemma has_entry_body_own:
  "b \<in> set (classify cls snippet) \<Longrightarrow>
   has_entry (register_model_body reg cls snippet app prefix up) (node_name prefix app cls) cls b"
  by (cases b)
     (auto simp add: register_model_body_def classify_def node_name_def Let_def
        add_snippet_def add_form_def add_page_def add_setting_def add_django_model_def
        split: if_splits)

lemma has_entry_body_mono:
  "has_entry reg node cls b \<Longrightarrow>
   has_entry (register_model_body reg c snippet app prefix up) node cls b"
  by (cases b)
     (auto simp add: register_model_body_def Let_def
        add_snippet_def add_form_def add_page_def add_setting_def add_django_model_def)

lemma has_entry_register_model:
  assumes "cls \<in> fst st \<longrightarrow>
             (\<forall>b\<in>set (classify cls (cls \<in> set snips)).
                has_entry (snd st) (node_name prefix app cls) cls b)"
  shows "cls \<in> fst (register_model st c (c \<in> set snips) app prefix up) \<longrightarrow>
           (\<forall>b\<in>set (classify cls (cls \<in> set snips)).
              has_entry (snd (register_model st c (c \<in> set snips) app prefix up))
                (node_name prefix app cls) cls b)"
proof (cases "c \<in> fst st")
  case True
  then show ?thesis using assms by (simp add: register_model_seen)
next
  case unseen: False
  show ?thesis
  proof (cases "c = cls")
    case True
    then show ?thesis
      using unseen by (simp add: register_model_unseen has_entry_body_own)
  next
    case False
    then show ?thesis
      using unseen assms by (simp add: register_model_unseen has_entry_body_mono)
  qed
qed

lemma has_entry_register_loop:
  assumes "cls \<in> fst st \<longrightarrow>
             (\<forall>b\<in>set (classify cls (cls \<in> set snips)).
                has_entry (snd st) (node_name prefix app cls) cls b)"
  shows "cls \<in> fst (register_loop snips app prefix up st xs) \<longrightarrow>
           (\<forall>b\<in>set (classify cls (cls \<in> set snips)).
              has_entry (snd (register_loop snips app prefix up st xs))
                (node_name prefix app cls) cls b)"
  using assms
proof (induction xs arbitrary: st)
  case Nil
  then show ?case by simp
next
  case (Cons c xs)
  show ?case
    using Cons.IH [OF has_entry_register_model [OF Cons.prems]] by simp
qed

lemma count_list_first_occurrences:
  "x \<in> set xs \<Longrightarrow> count_list (rev (remdups (rev xs))) x = 1"
proof -
  assume "x \<in> set xs"
  then have "x \<in> set (remdups (rev xs))" by simp
  moreover have "distinct (remdups (rev xs))" by simp
  moreover have "distinct ys \<Longrightarrow> x \<in> set ys \<Longrightarrow> count_list ys x = 1" for ys :: "'a list"
    by (induction ys) auto
  ultimately show ?thesis by simp
qed

text \<open>
  C8. Within one run of \<open>add_app\<close>, a class that occurs again in the combined list of
  snippets and models is registered exactly once. Processing the repeated occurrence
  changes neither the registry nor the set of seen classes; the registry after the run
  is the one obtained by running the registering body of \<open>_register_model\<close> over the
  list of first occurrences, in which the class occurs once; and the entries that this
  one registration writes for the class are in the registry after the run.
\<close>

theorem add_app_registers_once:
  assumes "j < length (to_register dj app)"
    and "to_register dj app ! j \<in> set (take j (to_register dj app))"
  shows "register_loop (get_snippet_models dj) app prefix up ({}, reg) (take (Suc j) (to_register dj app)) =
         register_loop (get_snippet_models dj) app prefix up ({}, reg) (take j (to_register dj app)) \<and>
         add_app dj reg app prefix up =
           foldl (\<lambda>r c. register_model_body r c (c \<in> set (get_snippet_models dj)) app prefix up) reg
             (rev (remdups (rev (to_register dj app)))) \<and>
         count_list (rev (remdups (rev (to_register dj app)))) (to_register dj app ! j) = 1 \<and>
         (\<forall>b\<in>set (classify (to_register dj app ! j)
                      (to_register dj app ! j \<in> set (get_snippet_models dj))).
            has_entry (add_app dj reg app prefix up)
              (node_name prefix app (to_register dj app ! j)) (to_register dj app ! j) b)"
proof -
  let ?xs = "to_register dj app"
  let ?snips = "get_snippet_models dj"
  let ?cls = "?xs ! j"
  have mem: "?cls \<in> set ?xs"
    using assms(1) by simp
  have noop: "register_loop ?snips app prefix up ({}, reg) (take (Suc j) ?xs) =
              register_loop ?snips app prefix up ({}, reg) (take j ?xs)"
    by (rule register_loop_repeat [OF assms])
  have "add_app dj reg app prefix up =
          snd (register_loop ?snips app prefix up ({}, reg) (rev (remdups (rev ?xs))))"
    unfolding add_app_def
    using register_loop_first_occurrences [of ?snips app prefix up "({}, reg)" ?xs] by simp
  also have "\<dots> = foldl (\<lambda>r c. register_model_body r c (c \<in> set ?snips) app prefix up)
                      (snd ({}, reg)) (rev (remdups (rev ?xs)))"
    using register_loop_distinct
      [where ys = "rev (remdups (rev ?xs))" and st = "({}, reg)" and snips = ?snips
         and app = app and prefix = prefix and up = up]
    by simp
  finally have once: "add_app dj reg app prefix up =
      foldl (\<lambda>r c. register_model_body r c (c \<in> set ?snips) app prefix up) reg
        (rev (remdups (rev ?xs)))"
    by simp
  have cnt: "count_list (rev (remdups (rev ?xs))) ?cls = 1"
    by (rule count_list_first_occurrences [OF mem])
  have start: "?cls \<in> fst ({}, reg) \<longrightarrow>
                 (\<forall>b\<in>set (classify ?cls (?cls \<in> set ?snips)).
                    has_entry (snd ({}, reg)) (node_name prefix app ?cls) ?cls b)"
    by simp
  have "?cls \<in> fst (register_loop ?snips app prefix up ({}, reg) ?xs)"
    using mem by (simp add: register_loop_seen)
  with has_entry_register_loop [OF start, of up ?xs]
  have ent: "\<forall>b\<in>set (classify ?cls (?cls \<in> set ?snips)).
               has_entry (add_app dj reg app prefix up) (node_name prefix app ?cls) ?cls b"
    unfolding add_app_def by blast
  from noop once cnt ent show ?thesis by blast
qed

text \<open>In the example site the snippet \<open>Advert\<close> is also a model of the app, so it is
  listed twice; the run registers \<open>Advert\<close>, \<open>BlogPage\<close> and \<open>ContactForm\<close> once
  each, and \<open>Advert\<close> is in \<open>snippets\<close> afterwards.\<close>

theorem add_app_registers_once_witness:
  "to_register example_models ''blog'' = [advert, blog_page, advert, contact_form] \<and>
   register_loop [advert] ''blog'' [AppField] ''/home/'' ({}, empty_registry) [advert, blog_page, advert] =
   register_loop [advert] ''blog'' [AppField] ''/home/'' ({}, empty_registry) [advert, blog_page] \<and>
   add_app example_models empty_registry ''blog'' [AppField] ''/home/'' =
     foldl (\<lambda>r c. register_model_body r c (c \<in> set [advert]) ''blog'' [AppField] ''/home/'')
       empty_registry [advert, blog_page, contact_form] \<and>
   count_list [advert, blog_page, contact_form] advert = 1 \<and>
   snippets (add_app example_models empty_registry ''blog'' [AppField] ''/home/'') advert \<noteq> None"
proof -
  have h1: "2 < length (to_register example_models ''blog'')"
    by (simp add: example_to_register)
  have h2: "to_register example_models ''blog'' ! 2 \<in> set (take 2 (to_register example_models ''blog''))"
    by (simp add: example_to_register)
  have d: "blog_page \<noteq> advert" "contact_form \<noteq> advert" "contact_form \<noteq> blog_page"
    by (simp_all add: blog_page_def advert_def contact_form_def)
  have s: "get_snippet_models example_models = [advert]"
    by (simp add: example_models_def)
  have t3: "take (Suc 2) [advert, blog_page, advert, contact_form] = [advert, blog_page, advert]"
    by (simp add: numeral_2_eq_2)
  have t2: "take 2 [advert, blog_page, advert, contact_form] = [advert, blog_page]"
    by (simp add: numeral_2_eq_2)
  have n: "[advert, blog_page, advert, contact_form] ! 2 = advert"
    by (simp add: numeral_2_eq_2)
  have f: "rev (remdups (rev [advert, blog_page, advert, contact_form])) = [advert, blog_page, contact_form]"
    using d by simp
  have c: "classify advert (advert \<in> set [advert]) = [SnippetsBucket]"
    by (simp add: classify_def)
  note run = add_app_registers_once [OF h1 h2, of "[AppField]" "''/home/''" empty_registry,
      unfolded example_to_register s t3 t2 n f c]
  from run have noop:
    "register_loop [advert] ''blog'' [AppField] ''/home/'' ({}, empty_registry) [advert, blog_page, advert] =
     register_loop [advert] ''blog'' [AppField] ''/home/'' ({}, empty_registry) [advert, blog_page]"
    by (rule conjunct1)
  from run have once:
    "add_app example_models empty_registry ''blog'' [AppField] ''/home/'' =
       foldl (\<lambda>r c. register_model_body r c (c \<in> set [advert]) ''blog'' [AppField] ''/home/'')
         empty_registry [advert, blog_page, contact_form]"
    by blast
  from run have cnt: "count_list [advert, blog_page, contact_form] advert = 1"
    by blast
  from run have "\<forall>b\<in>set [SnippetsBucket].
      has_entry (add_app example_models empty_registry ''blog'' [AppField] ''/home/'')
        (node_name [AppField] ''blog'' advert) advert b"
    by blast
  then have ent: "snippets (add_app example_models empty_registry ''blog'' [AppField] ''/home/'') advert \<noteq> None"
    by simp
  from example_to_register noop once cnt ent show ?thesis
    by blast
qed

section \<open>Properties of the root queries\<close>

lemma rows_visible_live_by_path:
  "set (rows (visible_live_by_path perm info q)) =
   {x \<in> set (rows q). perm (info_context info) x \<and> live x}"
  by (auto simp add: visible_live_by_path_def order_by_path_def live_pages_def
      with_page_permissions_def specific_def)

lemma related_visible_live_by_path:
  "related (visible_live_by_path perm info q) = related q"
  by (simp add: visible_live_by_path_def order_by_path_def live_pages_def
      with_page_permissions_def specific_def)

lemma related_foldl_select_related:
  "related (foldl select_related q fs) = related q @ fs"
  by (induction fs arbitrary: q) (simp_all add: select_related_def)

lemma rows_foldl_select_related:
  "rows (foldl select_related q fs) = rows q"
  by (induction fs arbitrary: q) (simp_all add: select_related_def)

lemma first_filter_id_None:
  "\<forall>x\<in>set db. page_id x \<noteq> i \<Longrightarrow> filter (\<lambda>p. page_id p = i) db = []"
  by (induction db) simp_all

lemma filter_unique_head:
  assumes "p \<in> set xs" and "R p" and "\<forall>q\<in>set xs. R q \<longrightarrow> q = p"
  shows "\<exists>ys. filter R xs = p # ys"
proof (cases "filter R xs")
  case Nil
  moreover from assms(1,2) have "p \<in> set (filter R xs)" by simp
  ultimately show ?thesis by simp
next
  case (Cons h ys)
  then have "h \<in> set (filter R xs)" by simp
  then have "h \<in> set xs" and "R h" by simp_all
  with assms(3) have "h = p" by blast
  with Cons show ?thesis by simp
qed

lemma rows_visible_live:
  "rows (live_pages (with_page_permissions perm req (specific q))) =
   filter (\<lambda>x. live x \<and> perm req x) (rows q)"
  by (auto simp add: live_pages_def with_page_permissions_def specific_def intro!: filter_cong)

lemma visible_live_first_unique:
  assumes "p \<in> set db" and "url_path p = u" and "live p" and "perm (info_context info) p"
    and "\<forall>q\<in>set db. url_path q = u \<longrightarrow> q = p"
  shows "visible_live_first perm info (filter_url_path u (objects db)) = Some p"
proof -
  let ?R = "\<lambda>q. url_path q = u"
  let ?V = "\<lambda>x. live x \<and> perm (info_context info) x"
  have "\<exists>ys. filter ?R db = p # ys"
  proof (rule filter_unique_head)
    show "p \<in> set db" by (rule assms(1))
    show "url_path p = u" by (rule assms(2))
    show "\<forall>q\<in>set db. url_path q = u \<longrightarrow> q = p" by (rule assms(5))
  qed
  then obtain ys where ys: "filter ?R db = p # ys" ..
  have "rows (select_related (filter_url_path u (objects db)) ''content_type'') = p # ys"
    by (simp add: select_related_def filter_url_path_def objects_def ys)
  then have "rows (live_pages (with_page_permissions perm (info_context info)
               (specific (select_related (filter_url_path u (objects db)) ''content_type''))))
             = p # filter ?V ys"
    unfolding rows_visible_live using assms(3,4) by simp
  then show ?thesis
    by (simp add: visible_live_first_def first_def)
qed

lemma dropWhile_replicate_append:
  "dropWhile (\<lambda>x. x = c) (replicate n c @ s) = dropWhile (\<lambda>x. x = c) s"
  by (induction n) simp_all

lemma rstrip_append_slashes:
  "rstrip c (s @ replicate n c) = rstrip c s"
  by (simp add: rstrip_def dropWhile_replicate_append)

subsection \<open>The arguments of \<open>page\<close>\<close>

text \<open>
  C3, as stated: \<open>page\<close> fails with an invalid-argument error when neither or both of
  \<open>id\<close> and \<open>url\<close> are supplied. With both supplied the code raises nothing: the
  call with id 2 and the url of another page returns page 2.
\<close>

theorem page_with_id_and_url_succeeds:
  "resolve_page ''/home/'' example_perm example_db example_info (Some 2) (Some ''contact'')
     = Inr (Some about_page) \<and>
   resolve_page ''/home/'' example_perm example_db example_info (Some 2) (Some ''contact'')
     \<noteq> Inl (ValueError one_of_msg)"
  by code_simp

text \<open>
  C3, amended. When neither \<open>id\<close> nor \<open>url\<close> is supplied, \<open>page\<close> fails at once with
  the invalid-argument error. When both are supplied it does not fail: the page is
  looked up by \<open>id\<close> and \<open>url\<close> is ignored.
\<close>

theorem page_argument_contract:
  "resolve_page URL_PREFIX perm db info None None = Inl (ValueError one_of_msg) \<and>
   resolve_page URL_PREFIX perm db info (Some i) (Some u) =
     resolve_page URL_PREFIX perm db info (Some i) None \<and>
   resolve_page URL_PREFIX perm db info (Some i) (Some u) =
     Inr (visible_live_first perm info (filter_id i (objects db)))"
  by (simp add: resolve_page_def)

theorem page_argument_contract_witness:
  "resolve_page ''/home/'' example_perm example_db example_info None None
     = Inl (ValueError one_of_msg) \<and>
   resolve_page ''/home/'' example_perm example_db example_info (Some 4) (Some ''about'')
     = Inr (Some contact_page)"
proof -
  have "visible_live_first example_perm example_info (filter_id 4 (objects example_db))
          = Some contact_page"
    by code_simp
  moreover note c = page_argument_contract
      [of "''/home/''" example_perm example_db example_info 4 "''about''"]
  ultimately have "resolve_page ''/home/'' example_perm example_db example_info (Some 4) (Some ''about'')
      = Inr (Some contact_page)"
    by (simp only: c)
  with c show ?thesis by (simp only: simp_thms)
qed

subsection \<open>The url of \<open>page\<close>\<close>

text \<open>
  C4, as stated: with the record stored under \<open>URL_PREFIX\<close> followed by \<open>about/\<close>, the
  urls \<open>/about/\<close> and \<open>about\<close> give the same lookup path and the same record. The code
  strips slashes at the end of the url only: with the prefix \<open>/home/\<close> the url
  \<open>/about/\<close> is looked up as \<open>/home//about/\<close> and finds nothing.
\<close>

theorem leading_slash_is_kept:
  "url_path about_page = ''/home/'' @ ''about/'' \<and>
   url_to_path ''/home/'' ''about'' = ''/home/about/'' \<and>
   url_to_path ''/home/'' ''/about/'' = ''/home//about/'' \<and>
   resolve_page ''/home/'' example_perm example_db example_info None (Some ''about'')
     = Inr (Some about_page) \<and>
   resolve_page ''/home/'' example_perm example_db example_info None (Some ''/about/'')
     = Inr None"
  by code_simp

text \<open>
  C4, amended. Slashes at the end of the url are normalised away, a slash at its
  start is not: for a visible, live record stored under \<open>URL_PREFIX\<close> followed by
  \<open>about/\<close> (the only record of that path), the url \<open>about\<close> followed by any number of
  slashes resolves to that record, and the url \<open>/about/\<close> is looked up under another
  path.
\<close>

theorem page_url_trailing_slashes:
  assumes "p \<in> set db"
    and "url_path p = URL_PREFIX @ ''about/''"
    and "live p" and "perm (info_context info) p"
    and "\<forall>q\<in>set db. url_path q = url_path p \<longrightarrow> q = p"
  shows "url_to_path URL_PREFIX (''about'' @ replicate n CHR ''/'') = url_to_path URL_PREFIX ''about'' \<and>
         resolve_page URL_PREFIX perm db info None (Some (''about'' @ replicate n CHR ''/'')) = Inr (Some p) \<and>
         url_to_path URL_PREFIX ''/about/'' \<noteq> url_path p"
proof -
  have r: "rstrip CHR ''/'' ''about'' = ''about''"
    by (simp add: rstrip_def)
  have u: "url_to_path URL_PREFIX (''about'' @ replicate n CHR ''/'') = URL_PREFIX @ ''about/''"
    unfolding url_to_path_def rstrip_append_slashes r by simp
  have u0: "url_to_path URL_PREFIX ''about'' = URL_PREFIX @ ''about/''"
    unfolding url_to_path_def r by simp
  from assms(5) have uniq: "\<forall>q\<in>set db. url_path q = URL_PREFIX @ ''about/'' \<longrightarrow> q = p"
    unfolding assms(2) .
  have "visible_live_first perm info (filter_url_path (URL_PREFIX @ ''about/'') (objects db)) = Some p"
    using visible_live_first_unique [where perm = perm and info = info, OF assms(1,2,3,4) uniq] .
  then have "resolve_page URL_PREFIX perm db info None (Some (''about'' @ replicate n CHR ''/'')) = Inr (Some p)"
    by (simp only: resolve_page_def option.case u)
  moreover have "url_to_path URL_PREFIX ''/about/'' \<noteq> url_path p"
    unfolding assms(2) by (simp add: url_to_path_def rstrip_def)
  ultimately show ?thesis using u u0 by simp
qed

theorem page_url_trailing_slashes_witness:
  "resolve_page ''/home/'' example_perm example_db example_info None (Some ''about/'') = Inr (Some about_page) \<and>
   resolve_page ''/home/'' example_perm example_db example_info None (Some ''about'') = Inr (Some about_page)"
proof -
  have h1: "about_page \<in> set example_db"
    by (simp add: example_db_def)
  have h2: "url_path about_page = ''/home/'' @ ''about/''"
    by (simp add: about_page_def)
  have h3: "live about_page"
    by (simp add: about_page_def)
  have h4: "example_perm (info_context example_info) about_page"
    by (simp add: example_perm_def about_page_def)
  have h5: "\<forall>q\<in>set example_db. url_path q = url_path about_page \<longrightarrow> q = about_page"
    by (simp add: example_db_def about_page_def home_page_def team_page_def contact_page_def
        draft_page_def private_page_def)
  show ?thesis
    using page_url_trailing_slashes
        [where perm = example_perm and info = example_info and n = 1, OF h1 h2 h3 h4 h5]
      page_url_trailing_slashes
        [where perm = example_perm and info = example_info and n = 0, OF h1 h2 h3 h4 h5]
    by simp
qed

subsection \<open>The parent of \<open>pages\<close>\<close>

lemma is_child_of_descendant: "is_child_of other p \<Longrightarrow> is_descendant_of other p"
  by (simp add: is_child_of_def)

lemma resolve_pages_parent_found:
  assumes "first (filter_id par (objects db)) = Some parent_page"
  shows "resolve_pages perm db reg info (Some par) =
         Inr (visible_live_by_path perm info
               (child_of parent_page
                 (foldl select_related (objects db)
                    (prefetch_intersection reg (selection_names info)))))"
  using assms by (simp add: resolve_pages_def Let_def)

text \<open>
  C5, as stated: with a parent that exists, \<open>pages\<close> returns descendants of the parent
  only, and every live, permitted descendant. The code filters with \<open>child_of\<close>: in the
  example site the page \<open>/home/about/team/\<close> is a live, permitted descendant of the
  home page, two levels below it, and \<open>pages(parent=1)\<close> does not return it.
\<close>

theorem grandchild_is_not_returned:
  "first (filter_id 1 (objects example_db)) = Some home_page \<and>
   map_sum id rows (resolve_pages example_perm example_db example_registry example_info (Some 1))
     = Inr [about_page, contact_page] \<and>
   is_descendant_of home_page team_page \<and> live team_page \<and>
   example_perm (info_context example_info) team_page \<and>
   team_page \<in> set example_db \<and> team_page \<notin> set [about_page, contact_page]"
  by code_simp

text \<open>
  C5, amended. For every call \<open>pages(parent=p)\<close> where \<open>p\<close> resolves to an existing
  page, the returned records are exactly the live, permitted children of that page,
  the descendants one level below it; every returned record is a descendant of the
  page.
\<close>

theorem pages_of_parent_are_children:
  assumes "first (filter_id par (objects db)) = Some parent_page"
  shows "\<exists>q. resolve_pages perm db reg info (Some par) = Inr q \<and>
           set (rows q) = {x \<in> set db. is_child_of parent_page x \<and>
                                        perm (info_context info) x \<and> live x} \<and>
           (\<forall>x\<in>set (rows q). is_descendant_of parent_page x) \<and>
           sorted (map path (rows q))"
proof -
  let ?q = "visible_live_by_path perm info
              (child_of parent_page
                (foldl select_related (objects db)
                   (prefetch_intersection reg (selection_names info))))"
  have r: "resolve_pages perm db reg info (Some par) = Inr ?q"
    by (rule resolve_pages_parent_found [OF assms])
  have s: "set (rows ?q) = {x \<in> set db. is_child_of parent_page x \<and>
                                        perm (info_context info) x \<and> live x}"
    by (auto simp add: rows_visible_live_by_path child_of_def rows_foldl_select_related objects_def)
  have d: "\<forall>x\<in>set (rows ?q). is_descendant_of parent_page x"
    unfolding s by (simp add: is_child_of_descendant)
  have o: "sorted (map path (rows ?q))"
    by (simp add: visible_live_by_path_def order_by_path_def)
  from r s d o show ?thesis by blast
qed

theorem pages_of_parent_are_children_witness:
  "first (filter_id 1 (objects example_db)) = Some home_page \<and>
   (\<exists>q. resolve_pages example_perm example_db example_registry example_info (Some 1) = Inr q \<and>
        set (rows q) = {x \<in> set example_db. is_child_of home_page x \<and>
                          example_perm (info_context example_info) x \<and> live x})"
proof -
  have h: "first (filter_id 1 (objects example_db)) = Some home_page"
    by code_simp
  from pages_of_parent_are_children [OF h, of example_perm example_registry example_info]
  show ?thesis using h by blast
qed

subsection \<open>Not found: the parent of \<open>pages\<close> and the page of \<open>page\<close>\<close>

text \<open>
  C6. When no page has the id given as \<open>parent\<close>, \<open>pages\<close> fails with the not-found
  error; it returns no list. A page that \<open>page\<close> does not find, by id or by url, is
  the absent result \<open>None\<close>, not an error.
\<close>

theorem pages_unknown_parent_fails:
  assumes "\<forall>x\<in>set db. page_id x \<noteq> par"
  shows "resolve_pages perm db reg info (Some par) =
           Inl (ValueError (''Page id='' @ str_int par @ '' not found.'')) \<and>
         resolve_page URL_PREFIX perm db info (Some par) url = Inr None \<and>
         ((\<forall>x\<in>set db. url_path x \<noteq> url_to_path URL_PREFIX u) \<longrightarrow>
            resolve_page URL_PREFIX perm db info None (Some u) = Inr None)"
proof -
  have e: "filter (\<lambda>p. page_id p = par) db = []"
    by (rule first_filter_id_None [OF assms])
  have a: "resolve_pages perm db reg info (Some par) =
           Inl (ValueError (''Page id='' @ str_int par @ '' not found.''))"
    by (simp add: resolve_pages_def Let_def first_def filter_id_def objects_def e)
  have b: "resolve_page URL_PREFIX perm db info (Some par) url = Inr None"
    by (simp add: resolve_page_def visible_live_first_def first_def live_pages_def
        with_page_permissions_def specific_def select_related_def filter_id_def objects_def e)
  have c: "resolve_page URL_PREFIX perm db info None (Some u) = Inr None"
    if "\<forall>x\<in>set db. url_path x \<noteq> url_to_path URL_PREFIX u"
  proof -
    from that have "filter (\<lambda>p. url_path p = url_to_path URL_PREFIX u) db = []"
      by (induction db) simp_all
    then show ?thesis
      by (simp add: resolve_page_def visible_live_first_def first_def live_pages_def
          with_page_permissions_def specific_def select_related_def filter_url_path_def objects_def)
  qed
  from a b c show ?thesis by blast
qed

theorem pages_unknown_parent_fails_witness:
  "resolve_pages example_perm example_db example_registry example_info (Some 9) =
     Inl (ValueError ''Page id=9 not found.'') \<and>
   resolve_page ''/home/'' example_perm example_db example_info (Some 9) None = Inr None \<and>
   resolve_page ''/home/'' example_perm example_db example_info None (Some ''nowhere'') = Inr None"
proof -
  have h: "\<forall>x\<in>set example_db. page_id x \<noteq> 9"
    by (simp add: example_db_def about_page_def home_page_def team_page_def contact_page_def
        draft_page_def private_page_def)
  have u: "\<forall>x\<in>set example_db. url_path x \<noteq> url_to_path ''/home/'' ''nowhere''"
    by (simp add: example_db_def about_page_def home_page_def team_page_def contact_page_def
        draft_page_def private_page_def url_to_path_def rstrip_def)
  have s: "str_int 9 = ''9''"
    by code_simp
  from pages_unknown_parent_fails [OF h, of example_perm example_registry example_info
      "''/home/''" None "''nowhere''"] u
  show ?thesis by (simp add: s)
qed

subsection \<open>Selective prefetch\<close>

lemma related_resolve_pages:
  assumes "resolve_pages perm db reg info parent = Inr q"
  shows "related q = prefetch_intersection reg (selection_names info)"
proof (cases parent)
  case None
  with assms show ?thesis
    by (auto simp add: resolve_pages_def Let_def related_visible_live_by_path
        related_foldl_select_related objects_def)
next
  case (Some par)
  with assms show ?thesis
    by (auto simp add: resolve_pages_def Let_def related_visible_live_by_path
        related_foldl_select_related objects_def child_of_def split: option.splits)
qed

lemma prefetch_fields_register_model:
  "distinct (page_prefetch_fields (snd st)) \<Longrightarrow>
   distinct (page_prefetch_fields (snd (register_model st cls snippet app prefix up)))"
  by (simp add: register_model_def register_model_body_def Let_def add_snippet_def add_form_def
      add_page_def add_setting_def add_django_model_def)

lemma prefetch_fields_register_loop:
  "distinct (page_prefetch_fields (snd st)) \<Longrightarrow>
   distinct (page_prefetch_fields (snd (register_loop snips app prefix up st xs)))"
  by (induction xs arbitrary: st) (simp_all add: prefetch_fields_register_model)

lemma prefetch_fields_add_app:
  "distinct (page_prefetch_fields reg) \<Longrightarrow>
   distinct (page_prefetch_fields (add_app dj reg app prefix up))"
  by (simp add: add_app_def prefetch_fields_register_loop)

lemma count_list_distinct:
  "distinct xs \<Longrightarrow> x \<in> set xs \<Longrightarrow> count_list xs x = 1"
  by (induction xs) auto

text \<open>
  C9, as stated: the joins are those of the names that are both in
  \<open>page_prefetch_fields\<close> and among the names of the requested top-level selections,
  and a query that selects only names outside \<open>page_prefetch_fields\<close> joins nothing.
  The code compares the names after \<open>camelcase_to_underscore\<close>, and it takes the name
  of a fragment spread like the name of a field: in the example site the query selects
  the field \<open>title\<close> and the fragment \<open>Blogpage\<close>, neither name is in
  \<open>page_prefetch_fields\<close>, and \<open>blogpage\<close> is joined.
\<close>

theorem converted_name_is_joined:
  "page_prefetch_fields example_registry = [''contactform'', ''blogpage''] \<and>
   map name_value (selections fragment_info) = [''title'', ''Blogpage''] \<and>
   filter (\<lambda>pf. pf \<in> set (map name_value (selections fragment_info)))
     (page_prefetch_fields example_registry) = [] \<and>
   map_sum id related (resolve_pages example_perm example_db example_registry fragment_info None)
     = Inr [''blogpage'']"
  by code_simp

text \<open>
  C9, amended. \<open>resolve_pages\<close> calls \<open>select_related\<close> exactly for the names in the
  intersection of \<open>page_prefetch_fields\<close> and the names of the requested top-level
  selections other than inline fragments, each name taken through
  \<open>camelcase_to_underscore\<close>: when no such name is in \<open>page_prefetch_fields\<close> nothing
  is joined, and a name that is in both is joined exactly once.
\<close>

theorem resolve_pages_prefetch:
  assumes "resolve_pages perm db reg info parent = Inr q"
    and "distinct (page_prefetch_fields reg)"
  shows "set (related q) = set (page_prefetch_fields reg) \<inter> set (selection_names info) \<and>
         (set (page_prefetch_fields reg) \<inter> set (selection_names info) = {} \<longrightarrow> related q = []) \<and>
         (\<forall>pf\<in>set (page_prefetch_fields reg) \<inter> set (selection_names info).
             count_list (related q) pf = 1)"
proof -
  have r: "related q = prefetch_intersection reg (selection_names info)"
    by (rule related_resolve_pages [OF assms(1)])
  have s: "set (related q) = set (page_prefetch_fields reg) \<inter> set (selection_names info)"
    unfolding r by (auto simp add: prefetch_intersection_def)
  have d: "distinct (related q)"
    unfolding r using assms(2) by (simp add: prefetch_intersection_def)
  have e: "related q = []" if "set (page_prefetch_fields reg) \<inter> set (selection_names info) = {}"
    using s that by simp
  have c: "count_list (related q) pf = 1"
    if "pf \<in> set (page_prefetch_fields reg) \<inter> set (selection_names info)" for pf
    using that s d by (simp add: count_list_distinct)
  from s e c show ?thesis by blast
qed

theorem resolve_pages_prefetch_witness:
  "selection_names example_info = [''title'', ''blogpage''] \<and>
   page_prefetch_fields example_registry = [''contactform'', ''blogpage''] \<and>
   (\<exists>q. resolve_pages example_perm example_db example_registry example_info None = Inr q \<and>
        set (related q) = {''blogpage''} \<and> count_list (related q) ''blogpage'' = 1)"
proof -
  have n: "selection_names example_info = [''title'', ''blogpage'']"
    by code_simp
  have f: "page_prefetch_fields example_registry = [''contactform'', ''blogpage'']"
    by code_simp
  have d: "distinct (page_prefetch_fields example_registry)"
    unfolding f by simp
  obtain q where q: "resolve_pages example_perm example_db example_registry example_info None = Inr q"
    by (simp add: resolve_pages_def Let_def)
  from resolve_pages_prefetch [OF q d] q show ?thesis
    unfolding n f by auto
qed

section \<open>Properties of the form mutation\<close>

lemma example_form_instance:
  "form_instance example_perm example_db ''/home/'' example_info ''contact/'' = Some contact_page"
  by code_simp

lemma example_form_page: "issubclass (type_of_specific contact_page) AbstractForm"
  by code_simp

text \<open>A page that is no form has no \<open>get_form\<close>: the mutation of the contact form,
  sent to the url of a blog page, raises \<open>AttributeError\<close> and records no submission.\<close>

lemma mutate_on_other_page:
  "mutate example_registry example_perm example_db example_get_form ''BlogContactForm'' ''/home/''
     [] example_info ''about/'' [(''email'', ''a@b.org'')] = (Inl AttributeError, [])"
  by code_simp

text \<open>
  C7, as stated: when the bound form validates, the result is \<open>OK\<close> with empty errors.
  The code passes only \<open>result\<close> to the mutation type, so the field \<open>errors\<close> of the
  result is unset: it is \<open>None\<close>, not the empty list.
\<close>

theorem valid_submission_leaves_errors_unset:
  "map_sum id result_errors
     (fst (mutate example_registry example_perm example_db example_get_form ''BlogContactForm''
             ''/home/'' [] example_info ''contact/'' [(''email'', ''a@b.org'')])) = Inr None \<and>
   map_sum id result_errors
     (fst (mutate example_registry example_perm example_db example_get_form ''BlogContactForm''
             ''/home/'' [] example_info ''contact/'' [(''email'', ''a@b.org'')])) \<noteq> Inr (Some [])"
  by code_simp

text \<open>
  C7, amended. An execution of the mutation of a registered form whose url resolves to
  a visible, live form page has one of two outcomes. If the bound form validates,
  \<open>process_form_submission\<close> is called once, with the page and the form, and the result
  is \<open>OK\<close> with the field \<open>errors\<close> unset (\<open>None\<close>, not an empty list). If it does not
  validate, \<open>process_form_submission\<close> is not called, and the result is \<open>FAIL\<close> with one
  \<open>FormError\<close> of field name and messages for every entry of the errors of the form,
  in the order the form reports them.
\<close>

theorem mutate_outcomes:
  assumes "form_instance perm db url_prefix info url = Some inst"
    and "issubclass (type_of_specific inst) AbstractForm"
    and "forms reg node = Some tp"
  shows "(is_valid (get_form inst vals (req_user (info_context info))) \<longrightarrow>
            mutate reg perm db get_form node url_prefix subs info url vals =
              (Inr \<lparr>instance_of = tp, result = Some ''OK'', result_errors = None\<rparr>,
               subs @ [(inst, get_form inst vals (req_user (info_context info)))])) \<and>
         (\<not> is_valid (get_form inst vals (req_user (info_context info))) \<longrightarrow>
            mutate reg perm db get_form node url_prefix subs info url vals =
              (Inr \<lparr>instance_of = tp, result = Some ''FAIL'',
                    result_errors = Some (map (\<lambda>(name, msgs). FormError name msgs)
                      (errors (get_form inst vals (req_user (info_context info)))))\<rparr>,
               subs))"
  using assms by (simp add: mutate_def forms_getitem_def Let_def)

text \<open>The contact form of the example site, registered by \<open>add_app\<close>: a submission
  with a well-formed address, and one failing on the field \<open>email\<close>.\<close>

theorem mutate_outcomes_witness:
  "mutate example_registry example_perm example_db example_get_form ''BlogContactForm'' ''/home/''
     [] example_info ''contact/'' [(''email'', ''a@b.org'')] =
     (Inr \<lparr>instance_of = contact_form_mutation, result = Some ''OK'', result_errors = None\<rparr>,
      [(contact_page, \<lparr>is_valid = True, errors = []\<rparr>)]) \<and>
   mutate example_registry example_perm example_db example_get_form ''BlogContactForm'' ''/home/''
     [] example_info ''contact/'' [(''email'', ''nobody'')] =
     (Inr \<lparr>instance_of = contact_form_mutation, result = Some ''FAIL'',
           result_errors = Some [FormError ''email'' [''Invalid'']]\<rparr>,
      [])"
proof -
  have ok: "example_get_form contact_page [(''email'', ''a@b.org'')] (req_user (info_context example_info))
              = \<lparr>is_valid = True, errors = []\<rparr>"
    by (simp add: example_get_form_def)
  have bad: "example_get_form contact_page [(''email'', ''nobody'')] (req_user (info_context example_info))
              = \<lparr>is_valid = False, errors = [(''email'', [''Invalid''])]\<rparr>"
    by (simp add: example_get_form_def)
  from mutate_outcomes [where get_form = example_get_form and vals = "[(''email'', ''a@b.org'')]"
        and subs = "[]", OF example_form_instance example_form_page example_registry_forms]
    mutate_outcomes [where get_form = example_get_form and vals = "[(''email'', ''nobody'')]"
        and subs = "[]", OF example_form_instance example_form_page example_registry_forms]
  show ?thesis by (simp add: ok bad)
qed

section \<open>Properties of the User type\<close>

text \<open>
  C10. The User type never exposes the password: whatever the fields of the user
  model are, the fields of the type are the fields of the model without \<open>password\<close>,
  in the order of the model.
\<close>

theorem User_hides_password:
  "''password'' \<notin> set (User_fields wagtailUser_fields) \<and>
   set (User_fields wagtailUser_fields) = set wagtailUser_fields - {''password''} \<and>
   User_fields wagtailUser_fields = filter (\<lambda>f. f \<noteq> ''password'') wagtailUser_fields"
  by (auto simp add: User_fields_def User_Meta_def object_type_fields_def)

theorem User_hides_password_witness:
  "User_fields [''id'', ''password'', ''last_login'', ''is_superuser'', ''username'', ''email'']
     = [''id'', ''last_login'', ''is_superuser'', ''username'', ''email'']"
  using User_hides_password
    [of "[''id'', ''password'', ''last_login'', ''is_superuser'', ''username'', ''email'']"]
  by simp

end
